theory Spec2Isabelle
  imports Main "HOL-Library.Char_ord" "HOL-Library.List_Lexorder"
begin

section \<open>The Contact model of \<^verbatim>\<open>contact/models.py\<close>\<close>

text \<open>
  The module declares one Django model, \<^verbatim>\<open>Contact\<close>, with two methods of its own:
  \<^verbatim>\<open>get_default_customer_id\<close> and \<^verbatim>\<open>save\<close>. Everything else is delegated to the object-relational
  mapper. The embedding has every column of the model (lines 55 to 114) and the key \<^verbatim>\<open>id\<close>
  that the mapper adds, with the constraints that the field options put on the table.

  Conventions.
  \<^item> Strings are ASCII byte strings without the character NUL, which no text column
    holds, and every attribute holds \<^verbatim>\<open>None\<close> or a value of the type of its field.
    \<^verbatim>\<open>order_by\<close> on a \<^verbatim>\<open>CharField\<close> is the byte-wise
    lexicographic order on \<open>string\<close> (the order of \<open>Char_ord\<close> and \<open>List_Lexorder\<close>); on
    strings of digits every collation orders this way.
  \<^item> Every attribute is an \<open>option\<close>: \<open>None\<close> is Python's \<^verbatim>\<open>None\<close> and SQL's \<^verbatim>\<open>NULL\<close>, which
    the table takes only in the columns declared with \<^verbatim>\<open>null=True\<close>.
  \<^item> A UUID is a number. The column \<^verbatim>\<open>notes\<close> is the field \<open>notes_text\<close>.
  \<^item> A method call on an instance against a database returns a triple: the exception that
    escaped (if any), the instance as the call left it, and the database as the call left it.
  \<^item> The clock (\<^verbatim>\<open>timezone.now\<close>) is an argument of the call that reads it.
\<close>

subsection \<open>Choice enumerations (lines 32 to 51)\<close>




subsection \<open>Rows and the table\<close>

type_synonym timestamp = nat

text \<open>An \<^verbatim>\<open>HStoreField\<close> value: string keys, string or null values.\<close>

type_synonym hstore = "(string \<times> string option) list"

record contact =
  pk :: "nat option"
  uuid :: "nat option"
  core_user_uuid :: "nat option"
  customer_id :: "string option"
  first_name :: "string option"
  middle_name :: "string option"
  last_name :: "string option"
  title :: "string option"
  suffix :: "string option"
  contact_type :: "string option"
  customer_type :: "string option"
  company :: "string option"
  addresses :: "hstore list option"
  siteprofile_uuids :: "nat list option"
  emails :: "hstore list option"
  phones :: "hstore list option"
  notes_text :: "string option"
  organization_uuid :: "string option"
  workflowlevel1_uuids :: "string list option"
  workflowlevel2_uuids :: "string list option"
  create_date :: "timestamp option"
  edit_date :: "timestamp option"

text \<open>The table: its rows and the next value of the primary-key sequence.\<close>

record database =
  rows :: "contact list"
  next_pk :: nat

datatype error = AttributeError | ValueError | TypeError | DataError | IntegrityError
  | ValidationError

subsection \<open>Python's \<^verbatim>\<open>str\<close> and \<^verbatim>\<open>int\<close> on decimal numerals\<close>

definition digit_char :: "nat \<Rightarrow> char" where
  "digit_char d = ''0123456789'' ! d"

fun nat_digits :: "nat \<Rightarrow> string" where
  "nat_digits n = (if n < 10 then [digit_char n] else nat_digits (n div 10) @ [digit_char (n mod 10)])"

declare nat_digits.simps [simp del]

text \<open>\<^verbatim>\<open>str(i)\<close> for an integer: a minus sign for negatives, then the decimal digits.\<close>

definition py_str :: "int \<Rightarrow> string" where
  "py_str i = (if i < 0 then CHR ''-'' # nat_digits (nat (- i)) else nat_digits (nat i))"

definition is_space :: "char \<Rightarrow> bool" where
  "is_space c = ((of_char c :: nat) \<in> {9, 10, 11, 12, 13, 32})"

definition is_digit :: "char \<Rightarrow> bool" where
  "is_digit c = (48 \<le> (of_char c :: nat) \<and> (of_char c :: nat) \<le> 57)"

definition digit_val :: "char \<Rightarrow> nat" where
  "digit_val c = of_char c - 48"

definition digits_value :: "string \<Rightarrow> nat" where
  "digits_value ds = foldl (\<lambda>acc c. 10 * acc + digit_val c) 0 ds"

fun double_underscore :: "string \<Rightarrow> bool" where
  "double_underscore (c # d # r) = ((c = CHR ''_'' \<and> d = CHR ''_'') \<or> double_underscore (d # r))"
| "double_underscore _ = False"

text \<open>
  \<^verbatim>\<open>int(s)\<close> for a string, base ten: surrounding white space is skipped, one sign is
  allowed, then at least one digit; single underscores may separate digits. Anything else
  raises \<^verbatim>\<open>ValueError\<close>.
\<close>

definition py_int :: "string \<Rightarrow> error + int" where
  "py_int s =
     (let s1 = dropWhile is_space s;
          neg = (case s1 of c # _ \<Rightarrow> c = CHR ''-'' | [] \<Rightarrow> False);
          s2 = (case s1 of c # r \<Rightarrow> if c = CHR ''-'' \<or> c = CHR ''+'' then r else s1 | [] \<Rightarrow> s1);
          body = takeWhile (\<lambda>c. is_digit c \<or> c = CHR ''_'') s2;
          rest = dropWhile (\<lambda>c. is_digit c \<or> c = CHR ''_'') s2
      in if body = [] \<or> hd body = CHR ''_'' \<or> last body = CHR ''_'' \<or> double_underscore body
            \<or> dropWhile is_space rest \<noteq> []
         then Inl ValueError
         else Inr ((if neg then - 1 else 1) * int (digits_value (filter is_digit body))))"

subsection \<open>The queryset of \<^verbatim>\<open>get_default_customer_id\<close> (lines 122 to 124)\<close>

text \<open>\<^verbatim>\<open>filter(organization_uuid=v)\<close>: equality, and \<^verbatim>\<open>IS NULL\<close> when \<^verbatim>\<open>v\<close> is \<^verbatim>\<open>None\<close>.\<close>

definition filter_organization_uuid :: "string option \<Rightarrow> contact list \<Rightarrow> contact list" where
  "filter_organization_uuid v rs = filter (\<lambda>r. organization_uuid r = v) rs"

text \<open>\<^verbatim>\<open>exclude(customer_id=None)\<close>: drops the rows whose \<^verbatim>\<open>customer_id\<close> is \<^verbatim>\<open>NULL\<close>.\<close>

definition exclude_customer_id_none :: "contact list \<Rightarrow> contact list" where
  "exclude_customer_id_none rs = filter (\<lambda>r. customer_id r \<noteq> None) rs"

definition customer_id_text :: "contact \<Rightarrow> string" where
  "customer_id_text r = (case customer_id r of Some s \<Rightarrow> s | None \<Rightarrow> [])"

text \<open>
  \<^verbatim>\<open>order_by('-customer_id')\<close>: descending in the column's string order, \<^verbatim>\<open>NULL\<close>s first
  (the database's default for a descending sort).
\<close>

definition order_by_customer_id_desc :: "contact list \<Rightarrow> contact list" where
  "order_by_customer_id_desc rs =
     filter (\<lambda>r. customer_id r = None) rs
     @ rev (sort_key customer_id_text (filter (\<lambda>r. customer_id r \<noteq> None) rs))"

text \<open>\<^verbatim>\<open>first()\<close>: the first row of the queryset, or \<^verbatim>\<open>None\<close>.\<close>

definition first :: "contact list \<Rightarrow> contact option" where
  "first rs = (case rs of [] \<Rightarrow> None | r # _ \<Rightarrow> Some r)"

definition latest_contact :: "contact \<Rightarrow> database \<Rightarrow> contact option" where
  "latest_contact self db =
     first (order_by_customer_id_desc (exclude_customer_id_none
       (filter_organization_uuid (organization_uuid self) (rows db))))"

text \<open>The queryset before it is ordered: the rows that the two conditions keep.\<close>

definition organization_query :: "contact \<Rightarrow> database \<Rightarrow> contact list" where
  "organization_query self db =
     exclude_customer_id_none (filter_organization_uuid (organization_uuid self) (rows db))"

subsection \<open>\<^verbatim>\<open>Contact.get_default_customer_id\<close> (lines 119 to 129)\<close>

text \<open>
  Reading \<^verbatim>\<open>.customer_id\<close> of \<^verbatim>\<open>None\<close> raises \<^verbatim>\<open>AttributeError\<close>, the one exception the
  \<^verbatim>\<open>try\<close> catches: the start index 10001 is used. \<^verbatim>\<open>int\<close> raises \<^verbatim>\<open>ValueError\<close> on a string
  that is no numeral and \<^verbatim>\<open>TypeError\<close> on \<^verbatim>\<open>None\<close>; neither is caught.
\<close>

definition get_default_customer_id :: "contact \<Rightarrow> database \<Rightarrow> error + string" where
  "get_default_customer_id self db =
     (case latest_contact self db of
        None \<Rightarrow> Inr (py_str 10001)
      | Some r \<Rightarrow>
          (case customer_id r of
             None \<Rightarrow> Inl TypeError
           | Some latest_customer_id \<Rightarrow>
               (case py_int latest_customer_id of
                  Inl e \<Rightarrow> Inl e
                | Inr n \<Rightarrow> Inr (py_str (n + 1)))))"

subsection \<open>The framework's \<^verbatim>\<open>Model.save\<close>\<close>

text \<open>
  \<^verbatim>\<open>super().save()\<close> is the mapper's: it runs no validator, sets the \<^verbatim>\<open>auto_now\<close> column
  \<^verbatim>\<open>edit_date\<close> on the instance, and then writes the row. An instance with a primary key
  updates the row of that key, or is inserted under it when there is none; an instance
  without one is inserted under the next value of the sequence.

  The database rejects the row, and writes nothing, when a string is longer than its
  column (\<^verbatim>\<open>max_length\<close>, also of the items of the two \<^verbatim>\<open>workflowlevel\<close> arrays), when a column
  declared without \<^verbatim>\<open>null=True\<close> is \<^verbatim>\<open>NULL\<close>, when another row has the \<^verbatim>\<open>uuid\<close> (line 55,
  \<^verbatim>\<open>unique=True\<close>), or when the key drawn from the sequence is taken. A string that is too
  long is refused with \<^verbatim>\<open>DataError\<close>, before a key is drawn; the other three are violations
  of a constraint, refused with \<^verbatim>\<open>IntegrityError\<close>, and the sequence keeps the value it has
  drawn for an insert that is so refused.
\<close>

definition too_long :: "nat \<Rightarrow> string option \<Rightarrow> bool" where
  "too_long n v = (case v of None \<Rightarrow> False | Some s \<Rightarrow> n < length s)"

definition item_too_long :: "nat \<Rightarrow> string list option \<Rightarrow> bool" where
  "item_too_long n v = (case v of None \<Rightarrow> False | Some xs \<Rightarrow> list_ex (\<lambda>s. n < length s) xs)"

definition value_too_long :: "contact \<Rightarrow> bool" where
  "value_too_long r =
     (too_long 32 (customer_id r) \<or> too_long 50 (first_name r) \<or> too_long 50 (middle_name r)
      \<or> too_long 50 (last_name r) \<or> too_long 16 (title r) \<or> too_long 50 (suffix r)
      \<or> too_long 30 (contact_type r) \<or> too_long 30 (customer_type r)
      \<or> too_long 100 (company r) \<or> too_long 36 (organization_uuid r)
      \<or> item_too_long 36 (workflowlevel1_uuids r) \<or> item_too_long 36 (workflowlevel2_uuids r))"

definition null_in_required_column :: "contact \<Rightarrow> bool" where
  "null_in_required_column r =
     (uuid r = None \<or> first_name r = None \<or> middle_name r = None \<or> last_name r = None
      \<or> suffix r = None \<or> workflowlevel1_uuids r = None \<or> create_date r = None
      \<or> edit_date r = None)"

definition uuid_taken :: "contact \<Rightarrow> database \<Rightarrow> bool" where
  "uuid_taken r db = list_ex (\<lambda>x. pk x \<noteq> pk r \<and> uuid x = uuid r) (rows db)"

text \<open>The exception with which the database answers the write of a row, if it does.\<close>

definition rejection :: "contact \<Rightarrow> database \<Rightarrow> error option" where
  "rejection r db =
     (if value_too_long r then Some DataError
      else if null_in_required_column r \<or> uuid_taken r db
              \<or> (pk r = None \<and> Some (next_pk db) \<in> set (map pk (rows db)))
           then Some IntegrityError
           else None)"

definition model_save :: "timestamp \<Rightarrow> contact \<Rightarrow> database \<Rightarrow> error option \<times> contact \<times> database" where
  "model_save now self db =
     (let self1 = self\<lparr>edit_date := Some now\<rparr>
      in case rejection self1 db of
           Some e \<Rightarrow>
             (Some e, self1,
              if e = IntegrityError \<and> pk self1 = None then db\<lparr>next_pk := Suc (next_pk db)\<rparr>
              else db)
         | None \<Rightarrow>
             (case pk self1 of
                Some k \<Rightarrow>
                  if Some k \<in> set (map pk (rows db))
                  then (None, self1,
                        db\<lparr>rows := map (\<lambda>r. if pk r = Some k then self1 else r) (rows db)\<rparr>)
                  else (None, self1, db\<lparr>rows := rows db @ [self1]\<rparr>)
              | None \<Rightarrow>
                  (let self2 = self1\<lparr>pk := Some (next_pk db)\<rparr>
                   in (None, self2,
                       db\<lparr>rows := rows db @ [self2], next_pk := Suc (next_pk db)\<rparr>))))"

subsection \<open>\<^verbatim>\<open>Contact.save\<close> (lines 131 to 134)\<close>

text \<open>\<^verbatim>\<open>not self.customer_id\<close>: true for \<^verbatim>\<open>None\<close> and for the empty string.\<close>

definition falsy :: "string option \<Rightarrow> bool" where
  "falsy v = (case v of None \<Rightarrow> True | Some s \<Rightarrow> s = [])"

definition save :: "timestamp \<Rightarrow> contact \<Rightarrow> database \<Rightarrow> error option \<times> contact \<times> database" where
  "save now self db =
     (if falsy (customer_id self)
      then (case get_default_customer_id self db of
              Inl e \<Rightarrow> (Some e, self, db)
            | Inr s \<Rightarrow> model_save now (self\<lparr>customer_id := Some s\<rparr>) db)
      else model_save now self db)"

subsection \<open>Instances, stored rows and reachable tables\<close>

text \<open>
  \<^verbatim>\<open>Contact()\<close> at time \<open>now\<close>, with \<open>u\<close> the value that \<^verbatim>\<open>uuid.uuid4\<close> draws: a \<^verbatim>\<open>CharField\<close>
  without \<^verbatim>\<open>null=True\<close> starts as the empty string, every other field without a default as
  \<^verbatim>\<open>None\<close> (also \<^verbatim>\<open>workflowlevel1_uuids\<close>, which the table does not take as \<^verbatim>\<open>NULL\<close>);
  \<^verbatim>\<open>create_date\<close> takes its default \<^verbatim>\<open>timezone.now\<close> (line 113), \<^verbatim>\<open>edit_date\<close> has no value before
  the first save.
\<close>

definition new_contact :: "nat \<Rightarrow> timestamp \<Rightarrow> contact" where
  "new_contact u now =
     \<lparr>pk = None, uuid = Some u, core_user_uuid = None, customer_id = None,
      first_name = Some [], middle_name = Some [], last_name = Some [], title = None,
      suffix = Some [], contact_type = None, customer_type = None, company = None,
      addresses = None, siteprofile_uuids = None, emails = None, phones = None, notes_text = None,
      organization_uuid = None, workflowlevel1_uuids = None, workflowlevel2_uuids = None,
      create_date = Some now, edit_date = None\<rparr>"

definition empty_db :: database where
  "empty_db = \<lparr>rows = [], next_pk = 1\<rparr>"

text \<open>\<^verbatim>\<open>objects.filter(pk=k).first()\<close>: the stored row of a primary key.\<close>

definition get_pk :: "database \<Rightarrow> nat \<Rightarrow> contact option" where
  "get_pk db k = find (\<lambda>r. pk r = Some k) (rows db)"

text \<open>
  \<^verbatim>\<open>Contact(organization_uuid=org, customer_id=cid, workflowlevel1_uuids=[])\<close> at time \<open>now\<close>
  with the drawn \<^verbatim>\<open>uuid\<close> \<open>u\<close>, and a stored row of that shape under the key \<open>k\<close>, with \<open>k\<close>
  as its \<^verbatim>\<open>uuid\<close> too.
\<close>

definition contact_in :: "nat \<Rightarrow> string \<Rightarrow> string option \<Rightarrow> timestamp \<Rightarrow> contact" where
  "contact_in u org cid now =
     (new_contact u now)\<lparr>customer_id := cid, organization_uuid := Some org,
                           workflowlevel1_uuids := Some []\<rparr>"

definition row :: "nat \<Rightarrow> string \<Rightarrow> string option \<Rightarrow> contact" where
  "row k org cid = (contact_in k org cid 0)\<lparr>pk := Some k, edit_date := Some 0\<rparr>"

text \<open>
  A table with four organizations: one whose \<^verbatim>\<open>customer_id\<close>s are \<^verbatim>\<open>"9"\<close> and \<^verbatim>\<open>"10"\<close>, one
  with a single five-digit one, one without any, and one with a value that is no numeral.
\<close>

definition example_db :: database where
  "example_db =
     \<lparr>rows = [row 1 ''org-a'' (Some ''9''), row 2 ''org-a'' (Some ''10''),
              row 3 ''org-b'' (Some ''20007''), row 4 ''org-c'' None,
              row 5 ''org-d'' (Some ''A-17'')],
      next_pk = 6\<rparr>"

text \<open>An instance is persisted when the stored row of its primary key equals it.\<close>

definition persisted :: "contact \<Rightarrow> database \<Rightarrow> bool" where
  "persisted self db = (case pk self of None \<Rightarrow> False | Some k \<Rightarrow> get_pk db k = Some self)"

text \<open>The tables that sequential calls of \<^verbatim>\<open>save\<close> build from the empty one.\<close>

inductive reachable :: "database \<Rightarrow> bool" where
  reachable_empty: "reachable empty_db"
| reachable_save: "reachable db \<Longrightarrow> save now self db = (e, self', db') \<Longrightarrow> reachable db'"

text \<open>The primary-key constraint: every row has a key, and no two rows share one.\<close>

definition pk_constraint :: "database \<Rightarrow> bool" where
  "pk_constraint db = (None \<notin> set (map pk (rows db)) \<and> distinct (map pk (rows db)))"

text \<open>
  The invariant of the data model: no two rows with an assigned \<^verbatim>\<open>customer_id\<close> agree on
  both \<^verbatim>\<open>organization_uuid\<close> and \<^verbatim>\<open>customer_id\<close>.
\<close>

definition customer_ids_unique :: "database \<Rightarrow> bool" where
  "customer_ids_unique db =
     distinct (map (\<lambda>r. (organization_uuid r, customer_id r)) (exclude_customer_id_none (rows db)))"

text \<open>The assigned \<^verbatim>\<open>customer_id\<close>s of the organization of an instance.\<close>

definition organization_customer_ids :: "contact \<Rightarrow> database \<Rightarrow> string set" where
  "organization_customer_ids self db =
     {s. \<exists>r \<in> set (rows db). organization_uuid r = organization_uuid self \<and> customer_id r = Some s}"

text \<open>
  The \<^verbatim>\<open>customer_id\<close> that the queryset selects is a numeral, and no \<^verbatim>\<open>customer_id\<close> of the
  organization is a numeral of a greater value (one that is no numeral does not count).
\<close>

definition numeral_not_above :: "int \<Rightarrow> contact \<Rightarrow> bool" where
  "numeral_not_above n r = (case py_int (customer_id_text r) of Inl _ \<Rightarrow> True | Inr v \<Rightarrow> v \<le> n)"

definition latest_is_numeric_max :: "contact \<Rightarrow> database \<Rightarrow> bool" where
  "latest_is_numeric_max self db =
     (case latest_contact self db of
        None \<Rightarrow> True
      | Some l \<Rightarrow>
          (case py_int (customer_id_text l) of
             Inl _ \<Rightarrow> False
           | Inr n \<Rightarrow> list_all (numeral_not_above n)
                       (exclude_customer_id_none
                          (filter_organization_uuid (organization_uuid self) (rows db)))))"

subsection \<open>The validators of \<^verbatim>\<open>contact/validators.py\<close>\<close>








text \<open>A Contact with an explicit \<^verbatim>\<open>customer_id\<close> of 33 characters.\<close>

definition example_long :: contact where
  "example_long = contact_in 100 ''org-a'' (Some (replicate 33 CHR ''7'')) 5"

text \<open>
  The instance of the stored row of key 3, with another \<^verbatim>\<open>create_date\<close> assigned to it
  (\<^verbatim>\<open>c = Contact.objects.get(pk=3); c.create_date = 7\<close>).
\<close>

definition example_redated :: contact where
  "example_redated = (row 3 ''org-b'' (Some ''20007''))\<lparr>create_date := Some 7\<rparr>"

text \<open>A table whose one organization has the \<^verbatim>\<open>customer_id\<close>s \<^verbatim>\<open>"9"\<close> and \<^verbatim>\<open>"1a"\<close>.\<close>

definition mixed_db :: database where
  "mixed_db = \<lparr>rows = [row 1 ''org-e'' (Some ''9''), row 2 ''org-e'' (Some ''1a'')], next_pk = 3\<rparr>"

text \<open>The table after two Contacts of one organization were saved with the same explicit \<^verbatim>\<open>customer_id\<close>.\<close>

definition duplicate_db :: database where
  "duplicate_db =
     snd (snd (save 2 (contact_in 102 ''org-a'' (Some ''K-1'') 2)
       (snd (snd (save 1 (contact_in 101 ''org-a'' (Some ''K-1'') 1) empty_db)))))"


section \<open>Properties\<close>

subsection \<open>Decimal numerals: \<^verbatim>\<open>int(str(i))\<close> is \<^verbatim>\<open>i\<close>\<close>

lemma digit_cases: "d < 10 \<Longrightarrow> d = 0 \<or> d = 1 \<or> d = 2 \<or> d = 3 \<or> d = 4 \<or> d = 5 \<or> d = 6 \<or> d = 7 \<or> d = 8 \<or> d = (9::nat)"
  by arith

lemma is_digit_digit_char: "d < 10 \<Longrightarrow> is_digit (digit_char d)"
  using digit_cases [of d] by (auto simp: is_digit_def digit_char_def)

lemma digit_val_digit_char: "d < 10 \<Longrightarrow> digit_val (digit_char d) = d"
  using digit_cases [of d] by (auto simp: digit_val_def digit_char_def)

lemma nat_digits_not_Nil: "nat_digits n \<noteq> []"
  by (subst nat_digits.simps) simp

lemma py_str_not_Nil: "py_str i \<noteq> []"
  by (simp add: py_str_def nat_digits_not_Nil)

lemma nat_digits_all_digits: "c \<in> set (nat_digits n) \<Longrightarrow> is_digit c"
proof (induction n arbitrary: c rule: nat_digits.induct)
  case (1 n)
  show ?case
  proof (cases "n < 10")
    case True
    with "1.prems" show ?thesis
      by (subst (asm) nat_digits.simps) (simp add: is_digit_digit_char)
  next
    case False
    with "1.prems" have "c \<in> set (nat_digits (n div 10)) \<or> c = digit_char (n mod 10)"
      by (subst (asm) nat_digits.simps) auto
    with False "1.IH" show ?thesis
      by (auto simp: is_digit_digit_char)
  qed
qed

lemma digits_value_snoc: "digits_value (ds @ [c]) = 10 * digits_value ds + digit_val c"
  by (simp add: digits_value_def)

lemma digits_value_nat_digits: "digits_value (nat_digits n) = n"
proof (induction n rule: nat_digits.induct)
  case (1 n)
  show ?case
  proof (cases "n < 10")
    case True
    then show ?thesis
      by (subst nat_digits.simps) (simp add: digits_value_def digit_val_digit_char)
  next
    case False
    with "1.IH" have "digits_value (nat_digits (n div 10)) = n div 10" by simp
    with False show ?thesis
      by (subst nat_digits.simps) (simp add: digits_value_snoc digit_val_digit_char)
  qed
qed

lemma is_digit_facts:
  "is_digit c \<Longrightarrow> \<not> is_space c \<and> c \<noteq> CHR ''-'' \<and> c \<noteq> CHR ''+'' \<and> c \<noteq> CHR ''_''"
  by (auto simp: is_digit_def is_space_def)

lemma no_double_underscore: "\<forall>c \<in> set ds. c \<noteq> CHR ''_'' \<Longrightarrow> \<not> double_underscore ds"
  by (induction ds rule: double_underscore.induct) auto

lemma py_int_digits:
  assumes ne: "ds \<noteq> []" and dg: "\<forall>c \<in> set ds. is_digit c"
  shows "py_int ds = Inr (int (digits_value ds))"
    and "py_int (CHR ''-'' # ds) = Inr (- int (digits_value ds))"
proof -
  obtain c r where ds: "ds = c # r" using ne by (cases ds) auto
  have c: "is_digit c" using dg ds by simp
  have tw: "takeWhile (\<lambda>c. is_digit c \<or> c = CHR ''_'') ds = ds"
    using dg by (simp add: takeWhile_eq_all_conv)
  have dw: "dropWhile (\<lambda>c. is_digit c \<or> c = CHR ''_'') ds = []"
    using dg by simp
  have fl: "filter is_digit ds = ds" using dg by simp
  have hd: "hd ds \<noteq> CHR ''_''" using c ds is_digit_facts by auto
  have "last ds \<in> set ds" using ne by simp
  then have la: "last ds \<noteq> CHR ''_''" using dg is_digit_facts by blast
  have du: "\<not> double_underscore ds"
    using dg is_digit_facts by (intro no_double_underscore) blast
  have sp: "dropWhile is_space ds = ds" using c ds is_digit_facts by simp
  have sg: "c \<noteq> CHR ''-''" "c \<noteq> CHR ''+''" using c is_digit_facts by auto
  have m: "\<not> is_space CHR ''-''" by (simp add: is_space_def)
  have ng: "(case ds of c # _ \<Rightarrow> c = CHR ''-'' | [] \<Rightarrow> False) = False"
    using sg by (simp add: ds)
  have s2: "(case ds of c # r \<Rightarrow> if c = CHR ''-'' \<or> c = CHR ''+'' then r else ds | [] \<Rightarrow> ds) = ds"
    using sg by (simp add: ds)
  show "py_int ds = Inr (int (digits_value ds))"
    using hd la du ne by (simp add: py_int_def sp ng s2 tw dw fl Let_def)
  show "py_int (CHR ''-'' # ds) = Inr (- int (digits_value ds))"
    using hd la du ne by (simp add: py_int_def m tw dw fl Let_def)
qed

lemma py_int_py_str: "py_int (py_str i) = Inr i"
proof -
  have d: "\<forall>c \<in> set (nat_digits n). is_digit c" for n
    using nat_digits_all_digits by blast
  show ?thesis
    using py_int_digits [OF nat_digits_not_Nil d]
    by (simp add: py_str_def digits_value_nat_digits)
qed

subsection \<open>The row that the queryset selects\<close>

lemma first_rev: "xs \<noteq> [] \<Longrightarrow> first (rev xs) = Some (last xs)"
  by (cases xs rule: rev_cases) (simp_all add: first_def)

lemma order_by_no_null:
  "\<forall>r \<in> set rs. customer_id r \<noteq> None \<Longrightarrow>
     order_by_customer_id_desc rs = rev (sort_key customer_id_text rs)"
proof -
  assume a: "\<forall>r \<in> set rs. customer_id r \<noteq> None"
  then have "filter (\<lambda>r. customer_id r = None) rs = []"
    by (simp add: filter_empty_conv)
  moreover from a have "filter (\<lambda>r. customer_id r \<noteq> None) rs = rs"
    by simp
  ultimately show ?thesis
    by (simp add: order_by_customer_id_desc_def)
qed

lemma sorted_le_last:
  fixes ys :: "'b :: linorder list"
  shows "sorted ys \<Longrightarrow> y \<in> set ys \<Longrightarrow> y \<le> last ys"
  by (cases ys rule: rev_cases) (auto simp: sorted_append)

lemma last_sort_key_Max:
  fixes f :: "'a \<Rightarrow> 'b :: linorder"
  assumes "xs \<noteq> []"
  shows "f (last (sort_key f xs)) = Max (f ` set xs)"
proof -
  let ?ys = "map f (sort_key f xs)"
  have ne: "sort_key f xs \<noteq> []" using assms by (metis length_sort length_0_conv)
  have srt: "sorted ?ys" by simp
  have "?ys \<noteq> []" using ne by simp
  then have "last ?ys \<in> set ?ys" by (rule last_in_set)
  then have mem: "last ?ys \<in> f ` set xs" by simp
  have "\<forall>y \<in> set ?ys. y \<le> last ?ys" using srt sorted_le_last by blast
  then have ub: "\<forall>y \<in> f ` set xs. y \<le> last ?ys" by simp
  have "Max (f ` set xs) = last ?ys"
    using mem ub by (intro Max_eqI) auto
  then show ?thesis using ne by (simp add: last_map)
qed

lemma latest_contact_query:
  "latest_contact self db =
     (if organization_query self db = [] then None
      else Some (last (sort_key customer_id_text (organization_query self db))))"
proof -
  have nn: "\<forall>r \<in> set (organization_query self db). customer_id r \<noteq> None"
    by (simp add: organization_query_def exclude_customer_id_none_def)
  show ?thesis
  proof (cases "organization_query self db = []")
    case True
    then show ?thesis
      by (simp add: latest_contact_def organization_query_def [symmetric]
          order_by_customer_id_desc_def first_def)
  next
    case False
    then have "sort_key customer_id_text (organization_query self db) \<noteq> []"
      by (metis length_sort length_0_conv)
    then show ?thesis
      using False order_by_no_null [OF nn]
      by (simp add: latest_contact_def organization_query_def [symmetric] first_rev)
  qed
qed

lemma set_organization_query:
  "set (organization_query self db) =
     {r \<in> set (rows db). organization_uuid r = organization_uuid self \<and> customer_id r \<noteq> None}"
  by (auto simp: organization_query_def exclude_customer_id_none_def filter_organization_uuid_def)

lemma text_image_query:
  "customer_id_text ` set (organization_query self db) = organization_customer_ids self db"
  by (force simp: set_organization_query organization_customer_ids_def customer_id_text_def image_iff)

lemma organization_query_Nil:
  "organization_query self db = [] \<longleftrightarrow> organization_customer_ids self db = {}"
  using text_image_query [of self db] by (metis image_is_empty set_empty)

lemma latest_contact_None:
  "latest_contact self db = None \<longleftrightarrow> organization_customer_ids self db = {}"
  by (simp add: latest_contact_query organization_query_Nil)

lemma latest_contact_Max:
  assumes "organization_customer_ids self db \<noteq> {}"
  shows "\<exists>r. latest_contact self db = Some r
           \<and> customer_id r = Some (Max (organization_customer_ids self db))
           \<and> r \<in> set (rows db) \<and> organization_uuid r = organization_uuid self"
proof -
  let ?q = "organization_query self db"
  let ?l = "last (sort_key customer_id_text ?q)"
  have ne: "?q \<noteq> []" using assms by (simp add: organization_query_Nil)
  then have sne: "sort_key customer_id_text ?q \<noteq> []" by (metis length_sort length_0_conv)
  have l: "latest_contact self db = Some ?l" using ne by (simp add: latest_contact_query)
  have "?l \<in> set (sort_key customer_id_text ?q)" using sne by (rule last_in_set)
  then have mem: "?l \<in> set ?q" by simp
  then have props: "?l \<in> set (rows db)" "organization_uuid ?l = organization_uuid self"
    "customer_id ?l \<noteq> None"
    by (simp_all add: set_organization_query)
  have "customer_id_text ?l = Max (organization_customer_ids self db)"
    using last_sort_key_Max [OF ne, of customer_id_text] by (simp add: text_image_query)
  with props(3) have "customer_id ?l = Some (Max (organization_customer_ids self db))"
    by (auto simp: customer_id_text_def)
  with l props show ?thesis by blast
qed

subsection \<open>What \<^verbatim>\<open>Model.save\<close> and \<^verbatim>\<open>get_default_customer_id\<close> do\<close>

lemma model_save_cases [consumes 1, case_names rejected updated inserted created]:
  assumes "model_save now self db = (e, self', db')"
  obtains err where "e = Some err" and "self' = self\<lparr>edit_date := Some now\<rparr>"
      and "rows db' = rows db" and "rejection (self\<lparr>edit_date := Some now\<rparr>) db = Some err"
  | k where "e = None" and "pk self = Some k" and "Some k \<in> set (map pk (rows db))"
      and "self' = self\<lparr>edit_date := Some now\<rparr>"
      and "db' = db\<lparr>rows := map (\<lambda>r. if pk r = Some k then self' else r) (rows db)\<rparr>"
  | k where "e = None" and "pk self = Some k" and "Some k \<notin> set (map pk (rows db))"
      and "self' = self\<lparr>edit_date := Some now\<rparr>"
      and "db' = db\<lparr>rows := rows db @ [self']\<rparr>"
  | "e = None" and "pk self = None" and "Some (next_pk db) \<notin> set (map pk (rows db))"
      and "self' = self\<lparr>edit_date := Some now, pk := Some (next_pk db)\<rparr>"
      and "db' = db\<lparr>rows := rows db @ [self'], next_pk := Suc (next_pk db)\<rparr>"
proof (cases "rejection (self\<lparr>edit_date := Some now\<rparr>) db")
  case (Some err)
  with assms have "e = Some err" "self' = self\<lparr>edit_date := Some now\<rparr>" "rows db' = rows db"
    by (auto simp: model_save_def Let_def split: if_splits)
  with Some that(1) show ?thesis by blast
next
  case ok: None
  show ?thesis
  proof (cases "pk self")
    case None
    from ok None have free: "Some (next_pk db) \<notin> set (map pk (rows db))"
      by (auto simp: rejection_def split: if_splits)
    from assms ok None have "e = None"
      "self' = self\<lparr>edit_date := Some now, pk := Some (next_pk db)\<rparr>"
      "db' = db\<lparr>rows := rows db @ [self'], next_pk := Suc (next_pk db)\<rparr>"
      by (auto simp: model_save_def Let_def)
    with None free that(4) show ?thesis by blast
  next
    case (Some k)
    show ?thesis
    proof (cases "Some k \<in> set (map pk (rows db))")
      case True
      with assms ok Some have "e = None" "self' = self\<lparr>edit_date := Some now\<rparr>"
        "db' = db\<lparr>rows := map (\<lambda>r. if pk r = Some k then self' else r) (rows db)\<rparr>"
        by (auto simp: model_save_def Let_def)
      with Some True that(2) show ?thesis by blast
    next
      case False
      with assms ok Some have "e = None" "self' = self\<lparr>edit_date := Some now\<rparr>"
        "db' = db\<lparr>rows := rows db @ [self']\<rparr>"
        by (auto simp: model_save_def Let_def)
      with Some False that(3) show ?thesis by blast
    qed
  qed
qed

lemma model_save_error:
  "fst (model_save now self db) = rejection (self\<lparr>edit_date := Some now\<rparr>) db"
  by (simp add: model_save_def Let_def split: option.split)

lemma model_save_fields:
  "customer_id (fst (snd (model_save now self db))) = customer_id self"
  "organization_uuid (fst (snd (model_save now self db))) = organization_uuid self"
  "create_date (fst (snd (model_save now self db))) = create_date self"
  "edit_date (fst (snd (model_save now self db))) = Some now"
  "addresses (fst (snd (model_save now self db))) = addresses self"
  "emails (fst (snd (model_save now self db))) = emails self"
  "phones (fst (snd (model_save now self db))) = phones self"
  by (simp_all add: model_save_def Let_def split: option.split)

lemma find_map_replace:
  "\<exists>r \<in> set rs. p r \<Longrightarrow> p c \<Longrightarrow> find p (map (\<lambda>r. if p r then c else r) rs) = Some c"
  by (induction rs) auto

lemma find_append_new:
  "\<forall>r \<in> set rs. \<not> p r \<Longrightarrow> p c \<Longrightarrow> find p (rs @ [c]) = Some c"
  by (induction rs) auto

lemma model_save_persisted:
  assumes "model_save now self db = (None, self', db')"
  shows "persisted self' db'"
  using assms
proof (cases rule: model_save_cases)
  case (rejected err)
  then show ?thesis by simp
next
  case (updated k)
  then have pk: "pk self' = Some k" by simp
  from updated(3) have "\<exists>r \<in> set (rows db). pk r = Some k" by auto
  then have "find (\<lambda>r. pk r = Some k) (map (\<lambda>r. if pk r = Some k then self' else r) (rows db))
      = Some self'"
    using pk by (intro find_map_replace) auto
  then show ?thesis using pk by (simp add: updated(5) persisted_def get_pk_def)
next
  case (inserted k)
  then have pk: "pk self' = Some k" by simp
  from inserted(3) have "\<forall>r \<in> set (rows db). \<not> pk r = Some k" by force
  then have "find (\<lambda>r. pk r = Some k) (rows db @ [self']) = Some self'"
    using pk by (intro find_append_new) auto
  then show ?thesis using pk by (simp add: inserted(5) persisted_def get_pk_def)
next
  case created
  then have pk: "pk self' = Some (next_pk db)" by simp
  from created(3) have "\<forall>r \<in> set (rows db). \<not> pk r = Some (next_pk db)" by force
  then have "find (\<lambda>r. pk r = Some (next_pk db)) (rows db @ [self']) = Some self'"
    using pk by (intro find_append_new) auto
  then show ?thesis using pk by (simp add: created(5) persisted_def get_pk_def)
qed

lemma model_save_raised:
  assumes "model_save now self db = (Some err, self', db')"
  shows "rows db' = rows db"
  using assms by (cases rule: model_save_cases) simp_all

lemma model_save_frame:
  assumes "model_save now self db = (e, self', db')" "r \<in> set (rows db)" "pk r \<noteq> pk self'"
  shows "r \<in> set (rows db')"
  using assms(1)
proof (cases rule: model_save_cases)
  case (rejected err)
  with assms(2) show ?thesis by simp
next
  case (updated k)
  then have "pk self' = Some k" by simp
  with assms(2,3) show ?thesis by (force simp: updated(5))
next
  case (inserted k)
  with assms(2) show ?thesis by simp
next
  case created
  with assms(2) show ?thesis by simp
qed

lemma model_save_pk:
  assumes "model_save now self db = (e, self', db')" and "pk self = Some k"
  shows "pk self' = Some k"
  using assms by (cases rule: model_save_cases) simp_all

lemma model_save_rows:
  assumes "model_save now c db = (e, c', db')"
  shows "rows db' = rows db
    \<or> (\<exists>n. organization_uuid n = organization_uuid c \<and> customer_id n = customer_id c
          \<and> (rows db' = rows db @ [n]
              \<or> (\<exists>k. rows db' = map (\<lambda>r. if pk r = Some k then n else r) (rows db))))"
  using assms
proof (cases rule: model_save_cases)
  case (rejected err)
  then show ?thesis by simp
next
  case (updated k)
  then have "organization_uuid c' = organization_uuid c \<and> customer_id c' = customer_id c
      \<and> (\<exists>k. rows db' = map (\<lambda>r. if pk r = Some k then c' else r) (rows db))"
    by auto
  then show ?thesis by blast
next
  case (inserted k)
  then have "organization_uuid c' = organization_uuid c \<and> customer_id c' = customer_id c
      \<and> rows db' = rows db @ [c']"
    by auto
  then show ?thesis by blast
next
  case created
  then have "organization_uuid c' = organization_uuid c \<and> customer_id c' = customer_id c
      \<and> rows db' = rows db @ [c']"
    by auto
  then show ?thesis by blast
qed

lemma replace_same_key:
  "g c = kk \<Longrightarrow> map g (map (\<lambda>r. if g r = kk then c else r) xs) = map g xs"
  by (induction xs) auto

lemma model_save_pk_constraint:
  assumes "pk_constraint db" and "model_save now c db = (e, c', db')"
  shows "pk_constraint db'"
  using assms(2)
proof (cases rule: model_save_cases)
  case (rejected err)
  with assms(1) show ?thesis by (simp add: pk_constraint_def)
next
  case (updated k)
  then have "pk c' = Some k" by simp
  then have "map pk (map (\<lambda>r. if pk r = Some k then c' else r) (rows db)) = map pk (rows db)"
    by (rule replace_same_key)
  then have pks: "map pk (rows db') = map pk (rows db)"
    by (simp add: updated(5))
  show ?thesis using assms(1) unfolding pk_constraint_def pks .
next
  case (inserted k)
  with assms(1) show ?thesis by (simp add: pk_constraint_def)
next
  case created
  with assms(1) show ?thesis by (simp add: pk_constraint_def)
qed

lemma get_default_no_prior:
  "organization_customer_ids self db = {} \<Longrightarrow> get_default_customer_id self db = Inr ''10001''"
  by (simp add: get_default_customer_id_def latest_contact_None [THEN iffD2]
      py_str_def nat_digits.simps digit_char_def)

lemma no_prior_iff:
  "organization_customer_ids self db = {} \<longleftrightarrow>
     (\<forall>r \<in> set (rows db). organization_uuid r = organization_uuid self \<longrightarrow> customer_id r = None)"
proof
  assume "organization_customer_ids self db = {}"
  then have "\<forall>s. \<forall>r \<in> set (rows db).
      organization_uuid r = organization_uuid self \<longrightarrow> customer_id r \<noteq> Some s"
    by (auto simp: organization_customer_ids_def)
  then show "\<forall>r \<in> set (rows db).
      organization_uuid r = organization_uuid self \<longrightarrow> customer_id r = None"
    by (metis option.exhaust)
next
  assume "\<forall>r \<in> set (rows db).
      organization_uuid r = organization_uuid self \<longrightarrow> customer_id r = None"
  then show "organization_customer_ids self db = {}"
    by (auto simp: organization_customer_ids_def)
qed

lemma get_default_latest:
  assumes "organization_customer_ids self db \<noteq> {}"
  shows "get_default_customer_id self db =
     (case py_int (Max (organization_customer_ids self db)) of
        Inl e \<Rightarrow> Inl e | Inr n \<Rightarrow> Inr (py_str (n + 1)))"
proof -
  obtain r where "latest_contact self db = Some r"
    "customer_id r = Some (Max (organization_customer_ids self db))"
    using latest_contact_Max [OF assms] by blast
  then show ?thesis by (simp add: get_default_customer_id_def)
qed

lemma py_int_error: "py_int s = Inl e \<Longrightarrow> e = ValueError"
  by (auto simp: py_int_def Let_def split: if_splits)

lemma get_default_errors:
  "get_default_customer_id self db = Inl e \<Longrightarrow> e = ValueError \<or> e = TypeError"
  by (auto simp: get_default_customer_id_def dest: py_int_error split: option.splits sum.splits)

lemma get_default_reads_organization:
  "organization_uuid c = organization_uuid self \<Longrightarrow>
     get_default_customer_id c db = get_default_customer_id self db"
  by (simp add: get_default_customer_id_def latest_contact_def)

lemma save_cases [consumes 1, case_names raised assigned kept]:
  assumes "save now self db = (e, self', db')"
  obtains err where "falsy (customer_id self)" and "get_default_customer_id self db = Inl err"
      and "e = Some err" and "self' = self" and "db' = db"
  | s where "falsy (customer_id self)" and "get_default_customer_id self db = Inr s"
      and "model_save now (self\<lparr>customer_id := Some s\<rparr>) db = (e, self', db')"
  | "\<not> falsy (customer_id self)" and "model_save now self db = (e, self', db')"
proof (cases "falsy (customer_id self)")
  case True
  show ?thesis
  proof (cases "get_default_customer_id self db")
    case (Inl err)
    with True assms have "e = Some err" "self' = self" "db' = db"
      by (simp_all add: save_def)
    with True Inl that(1) show ?thesis by blast
  next
    case (Inr s)
    with True assms have "model_save now (self\<lparr>customer_id := Some s\<rparr>) db = (e, self', db')"
      by (simp add: save_def)
    with True Inr that(2) show ?thesis by blast
  qed
next
  case False
  with assms have "model_save now self db = (e, self', db')"
    by (simp add: save_def)
  with False that(3) show ?thesis by blast
qed

lemma save_customer_id_set:
  "save now self db = (e, self', db') \<Longrightarrow> \<not> falsy (customer_id self) \<Longrightarrow>
     customer_id self' = customer_id self"
  using model_save_fields(1) [of now self db] by (simp add: save_def)

lemma save_returned:
  assumes "save now self db = (None, self', db')"
  shows "create_date self' = create_date self \<and> edit_date self' = Some now \<and> persisted self' db'
    \<and> addresses self' = addresses self \<and> emails self' = emails self \<and> phones self' = phones self
    \<and> organization_uuid self' = organization_uuid self"
  using assms
proof (cases rule: save_cases)
  case (raised err)
  then show ?thesis by simp
next
  case (assigned s)
  show ?thesis
    using model_save_fields [of now "self\<lparr>customer_id := Some s\<rparr>" db]
      model_save_persisted [OF assigned(3)] assigned(3) by simp
next
  case kept
  show ?thesis
    using model_save_fields [of now self db] model_save_persisted [OF kept(2)] kept(2) by simp
qed

lemma save_raised:
  assumes "save now self db = (Some err, self', db')"
  shows "rows db' = rows db"
  using assms
proof (cases rule: save_cases)
  case (raised err')
  then show ?thesis by simp
next
  case (assigned s)
  then show ?thesis using model_save_raised by blast
next
  case kept
  then show ?thesis using model_save_raised by blast
qed

lemma save_pk:
  assumes "save now self db = (e, self', db')" and "pk self = Some k"
  shows "pk self' = Some k"
  using assms(1)
proof (cases rule: save_cases)
  case (raised err)
  with assms(2) show ?thesis by simp
next
  case (assigned s)
  moreover have "pk (self\<lparr>customer_id := Some s\<rparr>) = Some k" using assms(2) by simp
  ultimately show ?thesis using model_save_pk by blast
next
  case kept
  with assms(2) show ?thesis using model_save_pk by blast
qed

lemma save_frame:
  assumes "save now self db = (e, self', db')" and "r \<in> set (rows db)" and "pk r \<noteq> pk self'"
  shows "r \<in> set (rows db')"
  using assms(1)
proof (cases rule: save_cases)
  case (raised err)
  with assms(2) show ?thesis by simp
next
  case (assigned s)
  from assigned(3) assms(2,3) show ?thesis by (rule model_save_frame)
next
  case kept
  from kept(2) assms(2,3) show ?thesis by (rule model_save_frame)
qed

lemma save_pk_constraint:
  assumes "pk_constraint db" and "save now self db = (e, self', db')"
  shows "pk_constraint db'"
  using assms(2)
proof (cases rule: save_cases)
  case (raised err)
  with assms(1) show ?thesis by simp
next
  case (assigned s)
  from assms(1) assigned(3) show ?thesis by (rule model_save_pk_constraint)
next
  case kept
  from assms(1) kept(2) show ?thesis by (rule model_save_pk_constraint)
qed

lemma reachable_pk_constraint: "reachable db \<Longrightarrow> pk_constraint db"
proof (induction rule: reachable.induct)
  case reachable_empty
  show ?case by (simp add: pk_constraint_def empty_db_def)
next
  case (reachable_save db now self e self' db')
  then show ?case using save_pk_constraint by blast
qed

subsection \<open>Calls of \<^verbatim>\<open>save\<close> on the example table\<close>

lemmas eval_defs = save_def falsy_def get_default_customer_id_def latest_contact_def first_def
  order_by_customer_id_desc_def exclude_customer_id_none_def filter_organization_uuid_def
  customer_id_text_def model_save_def rejection_def value_too_long_def too_long_def
  item_too_long_def null_in_required_column_def uuid_taken_def py_str_def nat_digits.simps
  digit_char_def py_int_def is_space_def is_digit_def digits_value_def digit_val_def Let_def
  new_contact_def contact_in_def row_def empty_db_def example_db_def persisted_def get_pk_def

lemma example_save_org_c:
  "save 6 (contact_in 100 ''org-c'' None 5) example_db
     = (None, (contact_in 100 ''org-c'' (Some ''10001'') 5)\<lparr>pk := Some 6, edit_date := Some 6\<rparr>,
        example_db\<lparr>rows := rows example_db
            @ [(contact_in 100 ''org-c'' (Some ''10001'') 5)\<lparr>pk := Some 6, edit_date := Some 6\<rparr>],
          next_pk := 7\<rparr>)"
  by (simp add: eval_defs)

lemma example_save_org_a:
  "save 6 (contact_in 100 ''org-a'' None 5) example_db
     = (None, (contact_in 100 ''org-a'' (Some ''10'') 5)\<lparr>pk := Some 6, edit_date := Some 6\<rparr>,
        example_db\<lparr>rows := rows example_db
            @ [(contact_in 100 ''org-a'' (Some ''10'') 5)\<lparr>pk := Some 6, edit_date := Some 6\<rparr>],
          next_pk := 7\<rparr>)"
  by (simp add: eval_defs)

lemma example_save_org_b:
  "save 6 (contact_in 100 ''org-b'' None 5) example_db
     = (None, (contact_in 100 ''org-b'' (Some ''20008'') 5)\<lparr>pk := Some 6, edit_date := Some 6\<rparr>,
        example_db\<lparr>rows := rows example_db
            @ [(contact_in 100 ''org-b'' (Some ''20008'') 5)\<lparr>pk := Some 6, edit_date := Some 6\<rparr>],
          next_pk := 7\<rparr>)"
  by (simp add: eval_defs)

lemma example_save_org_d:
  "save 6 (contact_in 100 ''org-d'' None 5) example_db
     = (Some ValueError, contact_in 100 ''org-d'' None 5, example_db)"
  by (simp add: eval_defs)

lemma example_save_explicit:
  "save 6 (contact_in 100 ''org-a'' (Some ''K-1'') 5) example_db
     = (None, (contact_in 100 ''org-a'' (Some ''K-1'') 5)\<lparr>pk := Some 6, edit_date := Some 6\<rparr>,
        example_db\<lparr>rows := rows example_db
            @ [(contact_in 100 ''org-a'' (Some ''K-1'') 5)\<lparr>pk := Some 6, edit_date := Some 6\<rparr>],
          next_pk := 7\<rparr>)"
  by (simp add: eval_defs)

lemma example_save_long:
  "save 6 example_long example_db = (Some DataError, example_long\<lparr>edit_date := Some 6\<rparr>, example_db)"
  by (simp add: eval_defs example_long_def)

lemma example_save_no_workflowlevel1:
  "save 6 ((new_contact 100 5)\<lparr>customer_id := Some ''K-1''\<rparr>) example_db
     = (Some IntegrityError, (new_contact 100 5)\<lparr>customer_id := Some ''K-1'', edit_date := Some 6\<rparr>,
        example_db\<lparr>next_pk := 7\<rparr>)"
  by (simp add: eval_defs)

lemma example_save_redated:
  "save 9 example_redated example_db
     = (None, example_redated\<lparr>edit_date := Some 9\<rparr>,
        example_db\<lparr>rows := [row 1 ''org-a'' (Some ''9''), row 2 ''org-a'' (Some ''10''),
              example_redated\<lparr>edit_date := Some 9\<rparr>, row 4 ''org-c'' None,
              row 5 ''org-d'' (Some ''A-17'')]\<rparr>)"
  by (simp add: eval_defs example_redated_def)


subsection \<open>Assignment of the first \<^verbatim>\<open>customer_id\<close> and its scope\<close>

text \<open>
  C2: when no Contact of the organization has a \<^verbatim>\<open>customer_id\<close>, \<^verbatim>\<open>save\<close> on a Contact whose
  \<^verbatim>\<open>customer_id\<close> is empty assigns \<^verbatim>\<open>"10001"\<close>, and the row it writes carries that value.
\<close>

theorem save_first_customer_id:
  assumes "falsy (customer_id self)"
    and "\<forall>r \<in> set (rows db). organization_uuid r = organization_uuid self \<longrightarrow> customer_id r = None"
    and "save now self db = (e, self', db')"
  shows "customer_id self' = Some ''10001'' \<and> (e = None \<longrightarrow> persisted self' db')"
proof -
  have "get_default_customer_id self db = Inr ''10001''"
    using assms(2) by (simp add: get_default_no_prior no_prior_iff)
  with assms(1,3) have m: "model_save now (self\<lparr>customer_id := Some ''10001''\<rparr>) db = (e, self', db')"
    by (simp add: save_def)
  then have "customer_id self' = Some ''10001''"
    using model_save_fields(1) [of now "self\<lparr>customer_id := Some ''10001''\<rparr>" db] by simp
  moreover have "e = None \<longrightarrow> persisted self' db'"
    using m model_save_persisted by blast
  ultimately show ?thesis by simp
qed

theorem save_first_customer_id_witness:
  "falsy (customer_id (contact_in 100 ''org-c'' None 5))
   \<and> list_all (\<lambda>r. organization_uuid r = organization_uuid (contact_in 100 ''org-c'' None 5)
                    \<longrightarrow> customer_id r = None) (rows example_db)
   \<and> customer_id (fst (snd (save 6 (contact_in 100 ''org-c'' None 5) example_db))) = Some ''10001''
   \<and> persisted (fst (snd (save 6 (contact_in 100 ''org-c'' None 5) example_db)))
        (snd (snd (save 6 (contact_in 100 ''org-c'' None 5) example_db)))"
proof -
  have h1: "falsy (customer_id (contact_in 100 ''org-c'' None 5))"
    by (simp add: eval_defs)
  have h2: "\<forall>r \<in> set (rows example_db).
      organization_uuid r = organization_uuid (contact_in 100 ''org-c'' None 5) \<longrightarrow> customer_id r = None"
    by (simp add: eval_defs)
  show ?thesis
    using h1 h2 save_first_customer_id [OF h1 h2 example_save_org_c]
    by (simp add: example_save_org_c list_all_iff)
qed

text \<open>
  C3: the value that \<^verbatim>\<open>get_default_customer_id\<close> computes, and so the \<^verbatim>\<open>customer_id\<close> that
  \<^verbatim>\<open>save\<close> leaves on the instance, depends on the rows of the instance's own organization
  only: two tables with the same rows of that organization give the same value, and when
  those rows carry no \<^verbatim>\<open>customer_id\<close> the value is \<^verbatim>\<open>"10001"\<close>, whatever the other rows are.
\<close>

theorem customer_id_scoped_to_organization:
  assumes "{r \<in> set (rows db1). organization_uuid r = organization_uuid self}
         = {r \<in> set (rows db2). organization_uuid r = organization_uuid self}"
  shows "get_default_customer_id self db1 = get_default_customer_id self db2
    \<and> customer_id (fst (snd (save now self db1))) = customer_id (fst (snd (save now self db2)))
    \<and> ((\<forall>r \<in> set (rows db1). organization_uuid r = organization_uuid self \<longrightarrow> customer_id r = None)
         \<longrightarrow> get_default_customer_id self db2 = Inr ''10001'')"
proof -
  have eq: "organization_customer_ids self db =
      {s. \<exists>r \<in> {r \<in> set (rows db). organization_uuid r = organization_uuid self}.
            customer_id r = Some s}" for db
    by (auto simp: organization_customer_ids_def)
  have ids: "organization_customer_ids self db1 = organization_customer_ids self db2"
    by (simp only: eq assms)
  have g: "get_default_customer_id self db1 = get_default_customer_id self db2"
  proof (cases "organization_customer_ids self db1 = {}")
    case True
    with ids show ?thesis by (simp add: get_default_no_prior)
  next
    case False
    with ids show ?thesis by (simp add: get_default_latest)
  qed
  have s: "customer_id (fst (snd (save now self db1))) = customer_id (fst (snd (save now self db2)))"
  proof (cases "falsy (customer_id self)")
    case True
    show ?thesis
    proof (cases "get_default_customer_id self db2")
      case (Inl e)
      with True g show ?thesis by (simp add: save_def)
    next
      case (Inr s)
      with True g show ?thesis by (simp add: save_def model_save_fields(1))
    qed
  next
    case False
    then show ?thesis by (simp add: save_def model_save_fields(1))
  qed
  have "(\<forall>r \<in> set (rows db1). organization_uuid r = organization_uuid self \<longrightarrow> customer_id r = None)
      \<longrightarrow> get_default_customer_id self db2 = Inr ''10001''"
    using ids get_default_no_prior [of self db2] no_prior_iff [of self db1] by auto
  with g s show ?thesis by simp
qed

theorem customer_id_scoped_to_organization_witness:
  "{r \<in> set (rows example_db). organization_uuid r = organization_uuid (contact_in 100 ''org-c'' None 5)}
     = {r \<in> set (rows \<lparr>rows = [row 4 ''org-c'' None], next_pk = 5\<rparr>).
          organization_uuid r = organization_uuid (contact_in 100 ''org-c'' None 5)}
   \<and> list_all (\<lambda>r. organization_uuid r = organization_uuid (contact_in 100 ''org-c'' None 5)
                    \<longrightarrow> customer_id r = None) (rows example_db)
   \<and> get_default_customer_id (contact_in 100 ''org-c'' None 5) example_db = Inr ''10001''
   \<and> get_default_customer_id (contact_in 100 ''org-c'' None 5) \<lparr>rows = [row 4 ''org-c'' None], next_pk = 5\<rparr>
       = Inr ''10001''"
proof -
  have h1: "{r \<in> set (rows example_db). organization_uuid r = organization_uuid (contact_in 100 ''org-c'' None 5)}
     = {r \<in> set (rows \<lparr>rows = [row 4 ''org-c'' None], next_pk = 5\<rparr>).
          organization_uuid r = organization_uuid (contact_in 100 ''org-c'' None 5)}"
    by (auto simp: eval_defs)
  have h2: "\<forall>r \<in> set (rows example_db).
      organization_uuid r = organization_uuid (contact_in 100 ''org-c'' None 5) \<longrightarrow> customer_id r = None"
    by (simp add: eval_defs)
  show ?thesis
    using h1 h2 customer_id_scoped_to_organization [OF h1, of 6] by (simp add: list_all_iff)
qed

subsection \<open>What the fallback catches\<close>

text \<open>
  C6: the \<^verbatim>\<open>except\<close> branch is taken when the queryset selects no row, and only gives the
  start value then. When the selected row's \<^verbatim>\<open>customer_id\<close> is no numeral, \<^verbatim>\<open>int\<close> raises
  \<^verbatim>\<open>ValueError\<close>, which \<^verbatim>\<open>save\<close> on a Contact with an empty \<^verbatim>\<open>customer_id\<close> lets escape: the
  instance and the table are left as they were.
\<close>

theorem save_non_numeric_latest_raises:
  "(latest_contact self db = None \<longrightarrow> get_default_customer_id self db = Inr ''10001'')
   \<and> (\<forall>r m. falsy (customer_id self) \<and> latest_contact self db = Some r \<and> customer_id r = Some m
          \<and> py_int m = Inl ValueError
        \<longrightarrow> get_default_customer_id self db = Inl ValueError
          \<and> save now self db = (Some ValueError, self, db))"
proof -
  have "latest_contact self db = None \<longrightarrow> get_default_customer_id self db = Inr ''10001''"
    by (simp add: latest_contact_None get_default_no_prior)
  moreover have "get_default_customer_id self db = Inl ValueError
      \<and> save now self db = (Some ValueError, self, db)"
    if "falsy (customer_id self)" "latest_contact self db = Some r" "customer_id r = Some m"
      "py_int m = Inl ValueError" for r m
    using that by (simp add: get_default_customer_id_def save_def)
  ultimately show ?thesis by blast
qed

theorem save_non_numeric_latest_raises_witness:
  "falsy (customer_id (contact_in 100 ''org-d'' None 5))
   \<and> latest_contact (contact_in 100 ''org-d'' None 5) example_db = Some (row 5 ''org-d'' (Some ''A-17''))
   \<and> customer_id (row 5 ''org-d'' (Some ''A-17'')) = Some ''A-17''
   \<and> py_int ''A-17'' = Inl ValueError
   \<and> save 6 (contact_in 100 ''org-d'' None 5) example_db
       = (Some ValueError, contact_in 100 ''org-d'' None 5, example_db)"
proof -
  have h1: "falsy (customer_id (contact_in 100 ''org-d'' None 5))"
    by (simp add: eval_defs)
  have h2: "latest_contact (contact_in 100 ''org-d'' None 5) example_db
      = Some (row 5 ''org-d'' (Some ''A-17''))"
    by (simp add: eval_defs)
  have h3: "customer_id (row 5 ''org-d'' (Some ''A-17'')) = Some ''A-17''"
    by (simp add: eval_defs)
  have h4: "py_int ''A-17'' = Inl ValueError"
    by (simp add: eval_defs)
  show ?thesis
    using h1 h2 h3 h4
      save_non_numeric_latest_raises [of "contact_in 100 ''org-d'' None 5" example_db 6]
    by blast
qed

subsection \<open>The selected \<^verbatim>\<open>customer_id\<close> is the greatest string\<close>

text \<open>
  C9: when the organization has an assigned \<^verbatim>\<open>customer_id\<close>, \<^verbatim>\<open>get_default_customer_id\<close>
  evaluates \<^verbatim>\<open>str(int(m) + 1)\<close> for the \<^verbatim>\<open>m\<close> that is greatest in string order among them
  (the error of \<^verbatim>\<open>int\<close> escapes when \<^verbatim>\<open>m\<close> is no numeral). Among \<^verbatim>\<open>"9"\<close> and \<^verbatim>\<open>"10"\<close> that is
  \<^verbatim>\<open>"9"\<close>, and the result is \<^verbatim>\<open>"10"\<close>.
\<close>

theorem get_default_customer_id_string_max:
  assumes "organization_customer_ids self db \<noteq> {}"
  shows "get_default_customer_id self db =
     (case py_int (Max (organization_customer_ids self db)) of
        Inl e \<Rightarrow> Inl e
      | Inr n \<Rightarrow> Inr (py_str (n + 1)))"
  using assms by (rule get_default_latest)

theorem get_default_customer_id_string_max_witness:
  "organization_customer_ids (contact_in 100 ''org-a'' None 5) example_db = {''9'', ''10''}
   \<and> Max {''9'', ''10''} = ''9''
   \<and> get_default_customer_id (contact_in 100 ''org-a'' None 5) example_db = Inr ''10''"
proof -
  have ids: "organization_customer_ids (contact_in 100 ''org-a'' None 5) example_db = {''9'', ''10''}"
    by (auto simp: organization_customer_ids_def eval_defs)
  then have h: "organization_customer_ids (contact_in 100 ''org-a'' None 5) example_db \<noteq> {}"
    by simp
  have mx: "Max {''9'', ''10''} = ''9''"
    by simp
  show ?thesis
    using ids mx get_default_customer_id_string_max [OF h]
    by (simp add: eval_defs)
qed

subsection \<open>A returning \<^verbatim>\<open>save\<close> leaves a \<^verbatim>\<open>customer_id\<close>\<close>

text \<open>
  C10: after a \<^verbatim>\<open>save\<close> that returns, the instance's \<^verbatim>\<open>customer_id\<close> is a non-empty string and
  the stored row of the instance is the instance, so no row is written with an empty
  \<^verbatim>\<open>customer_id\<close>.
\<close>

theorem save_customer_id_never_empty:
  assumes "save now self db = (None, self', db')"
  shows "\<exists>s. customer_id self' = Some s \<and> s \<noteq> [] \<and> persisted self' db'"
proof (cases "falsy (customer_id self)")
  case True
  then obtain s where s: "get_default_customer_id self db = Inr s"
    using assms by (cases "get_default_customer_id self db") (auto simp: save_def)
  then have "s \<noteq> []"
    by (auto simp: get_default_customer_id_def py_str_not_Nil split: option.splits sum.splits)
  moreover from True s assms have "customer_id self' = Some s"
    using model_save_fields(1) [of now "self\<lparr>customer_id := Some s\<rparr>" db] by (simp add: save_def)
  ultimately show ?thesis using save_returned [OF assms] by simp
next
  case False
  then obtain s where "customer_id self = Some s" "s \<noteq> []"
    by (auto simp: falsy_def split: option.splits)
  moreover from False assms have "customer_id self' = customer_id self"
    by (rule save_customer_id_set [rotated])
  ultimately show ?thesis using save_returned [OF assms] by simp
qed

theorem save_customer_id_never_empty_witness:
  "save 6 (contact_in 100 ''org-b'' None 5) example_db
     = (None, (contact_in 100 ''org-b'' (Some ''20008'') 5)\<lparr>pk := Some 6, edit_date := Some 6\<rparr>,
        example_db\<lparr>rows := rows example_db
            @ [(contact_in 100 ''org-b'' (Some ''20008'') 5)\<lparr>pk := Some 6, edit_date := Some 6\<rparr>],
          next_pk := 7\<rparr>)
   \<and> (\<exists>s. customer_id ((contact_in 100 ''org-b'' (Some ''20008'') 5)\<lparr>pk := Some 6, edit_date := Some 6\<rparr>)
            = Some s \<and> s \<noteq> []
          \<and> persisted ((contact_in 100 ''org-b'' (Some ''20008'') 5)\<lparr>pk := Some 6, edit_date := Some 6\<rparr>)
              (example_db\<lparr>rows := rows example_db
                 @ [(contact_in 100 ''org-b'' (Some ''20008'') 5)\<lparr>pk := Some 6, edit_date := Some 6\<rparr>],
               next_pk := 7\<rparr>))"
  using example_save_org_b save_customer_id_never_empty [OF example_save_org_b] by blast

subsection \<open>The next \<^verbatim>\<open>customer_id\<close> after \<^verbatim>\<open>"9"\<close> and \<^verbatim>\<open>"10"\<close>\<close>

text \<open>
  C1: the organization \<^verbatim>\<open>org-a\<close> of the example table has the \<^verbatim>\<open>customer_id\<close>s \<^verbatim>\<open>"9"\<close> and \<^verbatim>\<open>"10"\<close>,
  both numerals; their numeric maximum plus one is 11. \<^verbatim>\<open>save\<close> on a Contact of that
  organization with an empty \<^verbatim>\<open>customer_id\<close> assigns \<^verbatim>\<open>"10"\<close>, which is taken.
\<close>

theorem save_after_9_and_10_assigns_10:
  "organization_customer_ids (contact_in 100 ''org-a'' None 5) example_db = {''9'', ''10''}
   \<and> py_int ''9'' = Inr 9 \<and> py_int ''10'' = Inr 10 \<and> py_str (max 9 10 + 1) = ''11''
   \<and> customer_id (fst (snd (save 6 (contact_in 100 ''org-a'' None 5) example_db))) = Some ''10''"
proof -
  have "organization_customer_ids (contact_in 100 ''org-a'' None 5) example_db = {''9'', ''10''}"
    by (auto simp: organization_customer_ids_def eval_defs)
  moreover have "py_int ''9'' = Inr 9 \<and> py_int ''10'' = Inr 10 \<and> py_str (max 9 10 + 1) = ''11''"
    by (simp add: eval_defs)
  moreover have "customer_id (fst (snd (save 6 (contact_in 100 ''org-a'' None 5) example_db))) = Some ''10''"
    unfolding example_save_org_a by (simp add: contact_in_def new_contact_def)
  ultimately show ?thesis
    by simp
qed

subsection \<open>An explicit \<^verbatim>\<open>customer_id\<close> is kept\<close>

text \<open>
  C4, as stated, fails: a Contact with an explicit \<^verbatim>\<open>customer_id\<close> of 33 characters is not
  persisted. The column takes 32 characters; \<^verbatim>\<open>save\<close> raises \<^verbatim>\<open>DataError\<close> and the rows of
  the table are as they were.
\<close>

theorem save_rejects_long_customer_id:
  "customer_id example_long = Some (replicate 33 CHR ''7'')
   \<and> replicate 33 CHR ''7'' \<noteq> []
   \<and> fst (save 6 example_long example_db) = Some DataError
   \<and> rows (snd (snd (save 6 example_long example_db))) = rows example_db
   \<and> \<not> persisted (fst (snd (save 6 example_long example_db)))
         (snd (snd (save 6 example_long example_db)))"
proof -
  have "customer_id example_long = Some (replicate 33 CHR ''7'')"
    by (simp add: example_long_def contact_in_def)
  moreover have "\<not> persisted (example_long\<lparr>edit_date := Some 6\<rparr>) example_db"
    by (simp add: persisted_def example_long_def contact_in_def new_contact_def)
  ultimately show ?thesis
    unfolding example_save_long by simp
qed

text \<open>
  C4, amended: when \<^verbatim>\<open>customer_id\<close> is set to a non-empty string before \<^verbatim>\<open>save\<close>, the call is
  the mapper's \<^verbatim>\<open>Model.save\<close> alone, without any assignment. The instance keeps its
  \<^verbatim>\<open>customer_id\<close>; when the call returns, the stored row of the instance is the instance;
  when it raises, the rows of the table are as they were.
\<close>

theorem save_keeps_explicit_customer_id:
  assumes "customer_id self = Some s" and "s \<noteq> []" and "save now self db = (e, self', db')"
  shows "save now self db = model_save now self db
    \<and> customer_id self' = Some s
    \<and> (e = None \<longrightarrow> persisted self' db')
    \<and> (e \<noteq> None \<longrightarrow> rows db' = rows db)"
proof -
  have nf: "\<not> falsy (customer_id self)"
    using assms(1,2) by (simp add: falsy_def)
  then have same: "save now self db = model_save now self db"
    by (simp add: save_def)
  with assms(3) have m: "model_save now self db = (e, self', db')"
    by simp
  have kept: "customer_id self' = Some s"
    using model_save_fields(1) [of now self db] m assms(1) by simp
  have stored: "e = None \<longrightarrow> persisted self' db'"
    using m model_save_persisted by blast
  have "e \<noteq> None \<longrightarrow> rows db' = rows db"
    using m model_save_raised by blast
  with same kept stored show ?thesis by simp
qed

theorem save_keeps_explicit_customer_id_witness:
  "customer_id (contact_in 100 ''org-a'' (Some ''K-1'') 5) = Some ''K-1'' \<and> ''K-1'' \<noteq> []
   \<and> fst (save 6 (contact_in 100 ''org-a'' (Some ''K-1'') 5) example_db) = None
   \<and> customer_id (fst (snd (save 6 (contact_in 100 ''org-a'' (Some ''K-1'') 5) example_db)))
       = Some ''K-1''
   \<and> persisted (fst (snd (save 6 (contact_in 100 ''org-a'' (Some ''K-1'') 5) example_db)))
        (snd (snd (save 6 (contact_in 100 ''org-a'' (Some ''K-1'') 5) example_db)))"
proof -
  have h1: "customer_id (contact_in 100 ''org-a'' (Some ''K-1'') 5) = Some ''K-1''"
    by (simp add: contact_in_def)
  have h2: "''K-1'' \<noteq> []" by simp
  show ?thesis
    using h1 save_keeps_explicit_customer_id [OF h1 h2 example_save_explicit, THEN conjunct2]
    unfolding example_save_explicit by simp
qed

subsection \<open>Timestamps\<close>

lemma example_save_loaded:
  "save 9 (row 3 ''org-b'' (Some ''20007'')) example_db
     = (None, (row 3 ''org-b'' (Some ''20007''))\<lparr>edit_date := Some 9\<rparr>,
        example_db\<lparr>rows := [row 1 ''org-a'' (Some ''9''), row 2 ''org-a'' (Some ''10''),
              (row 3 ''org-b'' (Some ''20007''))\<lparr>edit_date := Some 9\<rparr>, row 4 ''org-c'' None,
              row 5 ''org-d'' (Some ''A-17'')]\<rparr>)"
  by (simp add: eval_defs)

lemma example_get_pk_3:
  "get_pk example_db 3 = Some (row 3 ''org-b'' (Some ''20007''))"
  by (simp add: get_pk_def example_db_def row_def)

text \<open>
  C8, as stated, fails: the stored row of key 3 has the \<^verbatim>\<open>create_date\<close> 0; a \<^verbatim>\<open>save\<close> of its
  instance, with the \<^verbatim>\<open>create_date\<close> 7 assigned to it, returns and leaves 7 in the stored row.
\<close>

theorem save_changes_stored_create_date:
  "map_option create_date (get_pk example_db 3) = Some (Some 0)
   \<and> pk example_redated = Some 3
   \<and> fst (save 9 example_redated example_db) = None
   \<and> map_option create_date (get_pk (snd (snd (save 9 example_redated example_db))) 3)
       = Some (Some 7)"
  unfolding example_save_redated
  by (simp add: get_pk_def example_db_def row_def example_redated_def contact_in_def
      new_contact_def)

text \<open>
  C8, amended: \<^verbatim>\<open>save\<close> never assigns \<^verbatim>\<open>create_date\<close> and writes the one that the instance
  carries. After every \<^verbatim>\<open>save\<close> that returns, the instance has the \<^verbatim>\<open>create_date\<close> that it had
  before the call and the \<^verbatim>\<open>edit_date\<close> of the time of the call, the stored row of the
  instance is the instance, and every row of another key is still in the table. So the
  stored \<^verbatim>\<open>create_date\<close> of a Contact is unchanged by a later \<^verbatim>\<open>save\<close> of an instance that
  carries the stored value.
\<close>

theorem save_writes_create_date_sets_edit_date:
  assumes "save now self db = (None, self', db')"
  shows "create_date self' = create_date self \<and> edit_date self' = Some now \<and> persisted self' db'
    \<and> (\<forall>r \<in> set (rows db). pk r \<noteq> pk self' \<longrightarrow> r \<in> set (rows db'))
    \<and> (\<forall>k r. pk self = Some k \<and> get_pk db k = Some r \<and> create_date r = create_date self
          \<longrightarrow> map_option create_date (get_pk db' k) = Some (create_date r))"
proof -
  have one: "create_date self' = create_date self \<and> edit_date self' = Some now \<and> persisted self' db'"
    using save_returned [OF assms] by simp
  have frame: "\<forall>r \<in> set (rows db). pk r \<noteq> pk self' \<longrightarrow> r \<in> set (rows db')"
    using save_frame [OF assms] by blast
  have "map_option create_date (get_pk db' k) = Some (create_date r)"
    if "pk self = Some k" "get_pk db k = Some r" "create_date r = create_date self" for k r
  proof -
    have "pk self' = Some k" using save_pk [OF assms that(1)] .
    with one have "get_pk db' k = Some self'"
      by (simp add: persisted_def)
    with one that(3) show ?thesis by simp
  qed
  with one frame show ?thesis by blast
qed

theorem save_writes_create_date_sets_edit_date_witness:
  "fst (save 9 (row 3 ''org-b'' (Some ''20007'')) example_db) = None
   \<and> pk (row 3 ''org-b'' (Some ''20007'')) = Some 3
   \<and> get_pk example_db 3 = Some (row 3 ''org-b'' (Some ''20007''))
   \<and> create_date (row 3 ''org-b'' (Some ''20007'')) = Some 0
   \<and> edit_date (row 3 ''org-b'' (Some ''20007'')) = Some 0
   \<and> map_option create_date (get_pk (snd (snd (save 9 (row 3 ''org-b'' (Some ''20007'')) example_db))) 3)
       = Some (Some 0)
   \<and> edit_date (fst (snd (save 9 (row 3 ''org-b'' (Some ''20007'')) example_db))) = Some 9"
proof -
  have f: "pk (row 3 ''org-b'' (Some ''20007'')) = Some 3"
    "create_date (row 3 ''org-b'' (Some ''20007'')) = Some 0"
    "edit_date (row 3 ''org-b'' (Some ''20007'')) = Some 0"
    by (simp_all add: row_def contact_in_def new_contact_def)
  have "map_option create_date
      (get_pk (example_db\<lparr>rows := [row 1 ''org-a'' (Some ''9''), row 2 ''org-a'' (Some ''10''),
              (row 3 ''org-b'' (Some ''20007''))\<lparr>edit_date := Some 9\<rparr>, row 4 ''org-c'' None,
              row 5 ''org-d'' (Some ''A-17'')]\<rparr>) 3)
      = Some (create_date (row 3 ''org-b'' (Some ''20007'')))"
    using save_writes_create_date_sets_edit_date [OF example_save_loaded] f(1) example_get_pk_3
    by blast
  then show ?thesis
    unfolding example_save_loaded using f example_get_pk_3 by simp
qed

subsection \<open>\<^verbatim>\<open>save\<close> runs no validator\<close>





subsection \<open>Uniqueness of \<^verbatim>\<open>customer_id\<close> within an organization\<close>

lemma replace_absent:
  "kk \<notin> set (map g xs) \<Longrightarrow> map (\<lambda>r. if g r = kk then c else r) xs = xs"
  by (induction xs) auto

lemma replace_keys:
  "f ` set (filter P (map (\<lambda>r. if g r = kk then c else r) xs))
     \<subseteq> insert (f c) (f ` set (filter P xs))"
  by (induction xs) auto

lemma distinct_replace:
  assumes "distinct (map g xs)" and "distinct (map f (filter P xs))" and "P c"
    and "\<forall>x \<in> set xs. P x \<longrightarrow> f x \<noteq> f c"
  shows "distinct (map f (filter P (map (\<lambda>r. if g r = kk then c else r) xs)))"
  using assms
proof (induction xs)
  case Nil
  then show ?case by simp
next
  case (Cons x xs)
  have dxs: "distinct (map f (filter P xs))"
    using Cons.prems(2) by (cases "P x") simp_all
  have fresh: "f c \<notin> f ` set (filter P xs)"
    using Cons.prems(4) by force
  show ?case
  proof (cases "g x = kk")
    case True
    then have "kk \<notin> set (map g xs)" using Cons.prems(1) by auto
    then have "map (\<lambda>r. if g r = kk then c else r) xs = xs" by (rule replace_absent)
    with True Cons.prems(3) dxs fresh show ?thesis by simp
  next
    case False
    have ih: "distinct (map f (filter P (map (\<lambda>r. if g r = kk then c else r) xs)))"
      using Cons.IH Cons.prems dxs by simp
    show ?thesis
    proof (cases "P x")
      case True
      have "f x \<noteq> f c" using Cons.prems(4) True by simp
      moreover have "f x \<notin> f ` set (filter P xs)"
        using Cons.prems(2) True by simp
      ultimately have "f x \<notin> f ` set (filter P (map (\<lambda>r. if g r = kk then c else r) xs))"
        using replace_keys [of f P g kk c xs] by blast
      with False True ih show ?thesis by simp
    next
      case False2: False
      with False ih show ?thesis by simp
    qed
  qed
qed

lemma distinct_append_new:
  assumes "distinct (map f (filter P xs))" and "\<forall>x \<in> set xs. P x \<longrightarrow> f x \<noteq> f c"
  shows "distinct (map f (filter P (xs @ [c])))"
  using assms by (cases "P c") force+

lemma assigned_id_fresh:
  assumes "latest_is_numeric_max self db"
  shows "\<exists>s. get_default_customer_id self db = Inr s
    \<and> (\<forall>r \<in> set (rows db). organization_uuid r = organization_uuid self \<longrightarrow> customer_id r \<noteq> Some s)"
proof (cases "organization_customer_ids self db = {}")
  case True
  then have "get_default_customer_id self db = Inr ''10001''"
    by (rule get_default_no_prior)
  moreover have "\<forall>r \<in> set (rows db). organization_uuid r = organization_uuid self \<longrightarrow>
      customer_id r \<noteq> Some ''10001''"
    using True by (auto simp: organization_customer_ids_def)
  ultimately show ?thesis by blast
next
  case ne: False
  let ?m = "Max (organization_customer_ids self db)"
  obtain l where l: "latest_contact self db = Some l" "customer_id l = Some ?m"
    using latest_contact_Max [OF ne] by blast
  then have lt: "customer_id_text l = ?m"
    by (simp add: customer_id_text_def)
  obtain n where n: "py_int ?m = Inr n"
    using assms l(1) lt by (cases "py_int ?m") (auto simp: latest_is_numeric_max_def)
  have all: "list_all (numeral_not_above n) (organization_query self db)"
    using assms l(1) lt n by (simp add: latest_is_numeric_max_def organization_query_def)
  have g: "get_default_customer_id self db = Inr (py_str (n + 1))"
    using get_default_latest [OF ne] n by simp
  have "customer_id r \<noteq> Some (py_str (n + 1))"
    if r: "r \<in> set (rows db)" "organization_uuid r = organization_uuid self" for r
  proof
    assume eq: "customer_id r = Some (py_str (n + 1))"
    with r have "r \<in> set (organization_query self db)"
      by (simp add: set_organization_query)
    with all have "numeral_not_above n r"
      by (simp add: list_all_iff)
    moreover have "py_int (customer_id_text r) = Inr (n + 1)"
      using eq by (simp add: customer_id_text_def py_int_py_str)
    ultimately show False
      by (simp add: numeral_not_above_def)
  qed
  with g show ?thesis by blast
qed

lemma model_save_unique:
  assumes pkc: "pk_constraint db" and uni: "customer_ids_unique db"
    and some: "customer_id c \<noteq> None"
    and fresh: "\<forall>r \<in> set (rows db). customer_id r \<noteq> None \<longrightarrow>
       (organization_uuid r, customer_id r) \<noteq> (organization_uuid c, customer_id c)"
    and m: "model_save now c db = (e, c', db')"
  shows "customer_ids_unique db'"
proof -
  let ?f = "\<lambda>r. (organization_uuid r, customer_id r)"
  let ?P = "\<lambda>r. customer_id r \<noteq> None"
  have d: "distinct (map ?f (filter ?P (rows db)))"
    using uni by (simp add: customer_ids_unique_def exclude_customer_id_none_def)
  from model_save_rows [OF m] show ?thesis
  proof (elim disjE exE conjE)
    assume "rows db' = rows db"
    with uni show ?thesis by (simp add: customer_ids_unique_def)
  next
    fix n
    assume n: "organization_uuid n = organization_uuid c" "customer_id n = customer_id c"
      and r: "rows db' = rows db @ [n]"
    have "\<forall>x \<in> set (rows db). ?P x \<longrightarrow> ?f x \<noteq> ?f n"
      using fresh n by simp
    with d have "distinct (map ?f (filter ?P (rows db @ [n])))"
      by (rule distinct_append_new)
    then show ?thesis
      by (simp only: customer_ids_unique_def exclude_customer_id_none_def r)
  next
    fix n k
    assume n: "organization_uuid n = organization_uuid c" "customer_id n = customer_id c"
      and r: "rows db' = map (\<lambda>r. if pk r = Some k then n else r) (rows db)"
    have dp: "distinct (map pk (rows db))"
      using pkc by (simp add: pk_constraint_def)
    have pn: "?P n" using some n by simp
    have fr: "\<forall>x \<in> set (rows db). ?P x \<longrightarrow> ?f x \<noteq> ?f n"
      using fresh n by simp
    have "distinct (map ?f (filter ?P (map (\<lambda>r. if pk r = Some k then n else r) (rows db))))"
      using dp d pn fr by (rule distinct_replace)
    then show ?thesis
      by (simp only: customer_ids_unique_def exclude_customer_id_none_def r)
  qed
qed

lemma mixed_db_facts:
  "pk_constraint mixed_db" "customer_ids_unique mixed_db"
  "falsy (customer_id (contact_in 100 ''org-e'' None 5))"
  "latest_is_numeric_max (contact_in 100 ''org-e'' None 5) mixed_db"
  by (simp_all add: pk_constraint_def customer_ids_unique_def latest_is_numeric_max_def
      numeral_not_above_def mixed_db_def eval_defs)

lemma example_save_mixed:
  "save 6 (contact_in 100 ''org-e'' None 5) mixed_db
     = (None, (contact_in 100 ''org-e'' (Some ''10'') 5)\<lparr>pk := Some 3, edit_date := Some 6\<rparr>,
        mixed_db\<lparr>rows := rows mixed_db
            @ [(contact_in 100 ''org-e'' (Some ''10'') 5)\<lparr>pk := Some 3, edit_date := Some 6\<rparr>],
          next_pk := 4\<rparr>)"
  by (simp add: mixed_db_def eval_defs)

lemma duplicate_db_rows:
  "duplicate_db =
     \<lparr>rows = [(contact_in 101 ''org-a'' (Some ''K-1'') 1)\<lparr>pk := Some 1, edit_date := Some 1\<rparr>,
              (contact_in 102 ''org-a'' (Some ''K-1'') 2)\<lparr>pk := Some 2, edit_date := Some 2\<rparr>],
      next_pk = 3\<rparr>"
  by (simp add: duplicate_db_def eval_defs)

text \<open>
  C5, as stated, fails: two Contacts of one organization saved with the same explicit
  \<^verbatim>\<open>customer_id\<close> are two rows of a reachable table that agree on \<^verbatim>\<open>organization_uuid\<close> and
  \<^verbatim>\<open>customer_id\<close>.
\<close>

theorem explicit_customer_id_duplicated:
  "reachable duplicate_db \<and> \<not> customer_ids_unique duplicate_db"
proof -
  let ?db1 = "snd (snd (save 1 (contact_in 101 ''org-a'' (Some ''K-1'') 1) empty_db))"
  have "save 1 (contact_in 101 ''org-a'' (Some ''K-1'') 1) empty_db
      = (fst (save 1 (contact_in 101 ''org-a'' (Some ''K-1'') 1) empty_db),
         fst (snd (save 1 (contact_in 101 ''org-a'' (Some ''K-1'') 1) empty_db)), ?db1)"
    by simp
  with reachable_empty have r1: "reachable ?db1"
    by (rule reachable_save)
  have "save 2 (contact_in 102 ''org-a'' (Some ''K-1'') 2) ?db1
      = (fst (save 2 (contact_in 102 ''org-a'' (Some ''K-1'') 2) ?db1),
         fst (snd (save 2 (contact_in 102 ''org-a'' (Some ''K-1'') 2) ?db1)), duplicate_db)"
    by (simp add: duplicate_db_def)
  with r1 have "reachable duplicate_db"
    by (rule reachable_save)
  moreover have "\<not> customer_ids_unique duplicate_db"
    unfolding duplicate_db_rows
    by (simp add: customer_ids_unique_def exclude_customer_id_none_def contact_in_def
        new_contact_def)
  ultimately show ?thesis by simp
qed

text \<open>
  C5, amended: take a table whose primary keys are distinct (every reachable one is such)
  and whose \<^verbatim>\<open>customer_id\<close>s are unique per organization, and a Contact with an empty
  \<^verbatim>\<open>customer_id\<close> whose organization has no \<^verbatim>\<open>customer_id\<close> yet, or for which the selected
  \<^verbatim>\<open>customer_id\<close> is a numeral and no \<^verbatim>\<open>customer_id\<close> of the organization is a numeral of a
  greater value. Then \<^verbatim>\<open>save\<close> leaves on the instance a \<^verbatim>\<open>customer_id\<close> that no row of the
  organization carried, and the \<^verbatim>\<open>customer_id\<close>s of the table after the call are unique per
  organization.
\<close>

theorem auto_assigned_customer_id_unique:
  assumes "pk_constraint db" and "customer_ids_unique db"
    and "falsy (customer_id self)" and "latest_is_numeric_max self db"
    and "save now self db = (e, self', db')"
  shows "customer_ids_unique db' \<and> pk_constraint db'
    \<and> (\<forall>r \<in> set (rows db). organization_uuid r = organization_uuid self \<longrightarrow>
          customer_id r \<noteq> customer_id self')"
proof -
  have pkc: "pk_constraint db'"
    using assms(1,5) by (rule save_pk_constraint)
  obtain s where s: "get_default_customer_id self db = Inr s"
    and fresh: "\<forall>r \<in> set (rows db). organization_uuid r = organization_uuid self \<longrightarrow>
      customer_id r \<noteq> Some s"
    using assigned_id_fresh [OF assms(4)] by blast
  let ?c = "self\<lparr>customer_id := Some s\<rparr>"
  from s assms(3,5) have m: "model_save now ?c db = (e, self', db')"
    by (simp add: save_def)
  then have cid: "customer_id self' = Some s"
    using model_save_fields(1) [of now ?c db] by simp
  have "\<forall>r \<in> set (rows db). customer_id r \<noteq> None \<longrightarrow>
      (organization_uuid r, customer_id r) \<noteq> (organization_uuid ?c, customer_id ?c)"
    using fresh by simp
  moreover have "customer_id ?c \<noteq> None" by simp
  ultimately have "customer_ids_unique db'"
    using assms(1,2) m model_save_unique by blast
  with pkc fresh cid show ?thesis by simp
qed

theorem auto_assigned_customer_id_unique_witness:
  "pk_constraint mixed_db \<and> customer_ids_unique mixed_db
   \<and> falsy (customer_id (contact_in 100 ''org-e'' None 5))
   \<and> latest_is_numeric_max (contact_in 100 ''org-e'' None 5) mixed_db
   \<and> py_int ''1a'' = Inl ValueError
   \<and> customer_id (fst (snd (save 6 (contact_in 100 ''org-e'' None 5) mixed_db))) = Some ''10''
   \<and> customer_ids_unique (snd (snd (save 6 (contact_in 100 ''org-e'' None 5) mixed_db)))"
proof -
  have "customer_id (fst (snd (save 6 (contact_in 100 ''org-e'' None 5) mixed_db))) = Some ''10''"
    unfolding example_save_mixed by (simp add: contact_in_def new_contact_def)
  moreover have "customer_ids_unique (snd (snd (save 6 (contact_in 100 ''org-e'' None 5) mixed_db)))"
    using auto_assigned_customer_id_unique [OF mixed_db_facts example_save_mixed]
    unfolding example_save_mixed by simp
  moreover have "py_int ''1a'' = Inl ValueError"
    by (simp add: eval_defs)
  ultimately show ?thesis
    using mixed_db_facts by simp
qed

end
